theory Spec2Isabelle
  imports Complex_Main
begin

section \<open>Tensors as nested lists\<close>

text \<open>
  The fleet of \<^verbatim>\<open>sdriving/tsim/vehicle.py\<close> keeps its state in torch tensors.
  A tensor of shape N x k is the list of its N rows, a tensor of shape N x 4 x 2 the
  list of its N blocks of rows. Floating-point numbers are idealised as reals.
  The errors torch raises on shapes that do not fit are values of the type
  \<open>error\<close>: a result is \<open>Inl e\<close> where the source raises.
\<close>

type_synonym tensor1 = "real list"
type_synonym tensor2 = "real list list"
type_synonym tensor3 = "real list list list"

datatype error = RuntimeError | IndexError

text \<open>Collects the results of a list of computations; the first error wins.\<close>

fun collect :: "(error + 'a) list \<Rightarrow> error + 'a list" where
  "collect [] = Inr []"
| "collect (Inl e # rs) = Inl e"
| "collect (Inr x # rs) = (case collect rs of Inl e \<Rightarrow> Inl e | Inr xs \<Rightarrow> Inr (x # xs))"

text \<open>\<^verbatim>\<open>t[:, 0]\<close> on a two-dimensional tensor: an IndexError when the rows are empty.\<close>

definition select_col0 :: "tensor2 \<Rightarrow> error + tensor1" where
  "select_col0 t = (if [] \<in> set t then Inl IndexError else Inr (map hd t))"

text \<open>\<^verbatim>\<open>t[:, None, :]\<close>: every row becomes a block of one row.\<close>

definition unsqueeze1 :: "tensor2 \<Rightarrow> tensor3" where
  "unsqueeze1 t = map (\<lambda>r. [r]) t"

section \<open>The helpers of \<^verbatim>\<open>sdriving.tsim.utils\<close>\<close>

text \<open>
  Modelled from the spec: \<^verbatim>\<open>angle_normalize\<close> is imported from
  \<^verbatim>\<open>sdriving.tsim.utils\<close>, which is not among the sources. The spec says that
  it normalizes an angle to the interval (-pi, pi]: the representative of the angle
  modulo 2 pi in that interval, elementwise.
\<close>

definition angle_normalize1 :: "real \<Rightarrow> real" where
  "angle_normalize1 a = a - 2 * pi * of_int \<lceil>(a - pi) / (2 * pi)\<rceil>"

definition angle_normalize :: "tensor2 \<Rightarrow> tensor2" where
  "angle_normalize t = map (map angle_normalize1) t"

text \<open>
  Modelled from the spec: \<^verbatim>\<open>transform_2d_coordinates\<close> is imported from
  \<^verbatim>\<open>sdriving.tsim.utils\<close>, which is not among the sources. The spec (4.2) gives
  \<open>world = R(\<theta>) \<cdot> local + position\<close> for each of the corners of each vehicle, batched
  over N, for local corners N x 4 x 2, angles N and positions N x 1 x 2. The spec
  describes no other shapes; on them the model returns a RuntimeError.
\<close>

fun rotate_translate :: "real \<Rightarrow> real list \<Rightarrow> real list \<Rightarrow> error + real list" where
  "rotate_translate th [tx, ty] [x, y] =
     Inr [x * cos th - y * sin th + tx, x * sin th + y * cos th + ty]"
| "rotate_translate th t c = Inl RuntimeError"

fun transform_vehicle :: "tensor2 \<Rightarrow> real \<Rightarrow> tensor2 \<Rightarrow> error + tensor2" where
  "transform_vehicle cs th [t] = collect (map (rotate_translate th t) cs)"
| "transform_vehicle cs th ts = Inl RuntimeError"

definition transform_2d_coordinates :: "tensor3 \<Rightarrow> tensor1 \<Rightarrow> tensor3 \<Rightarrow> error + tensor3" where
  "transform_2d_coordinates coords theta translation =
     (if length theta = length coords \<and> length translation = length coords
      then collect (map (\<lambda>(cs, th, t). transform_vehicle cs th t)
                        (zip coords (zip theta translation)))
      else Inl RuntimeError)"

section \<open>The fleet\<close>

record fleet =
  name :: "string list"
  position :: tensor2
  orientation :: tensor2
  destination :: tensor2
  dest_orientation :: tensor2
  dimensions :: tensor2
  nbatch :: nat
  diag_bool_buffer :: "bool list list"
  speed :: tensor2
  safety_circle :: tensor2
  area :: tensor2
  base_coordinates :: tensor3
  cached_coordinates :: bool
  coordinates :: tensor3
  max_lidar_range :: real
  min_lidar_range :: real
  vision_range :: real

text \<open>
  \<^verbatim>\<open>~torch.diag(torch.ones(nbatch * 4)).bool()\<close>: the square matrix of size 4 N
  that is False on the diagonal and True elsewhere.
\<close>

definition make_diag_bool_buffer :: "nat \<Rightarrow> bool list list" where
  "make_diag_bool_buffer n = map (\<lambda>i. map (\<lambda>j. i \<noteq> j) [0..<4 * n]) [0..<4 * n]"

text \<open>
  \<^verbatim>\<open>1.3 * torch.sqrt(((dimensions / 2) ** 2).sum(1, keepdim=True))\<close> and
  \<^verbatim>\<open>math.pi * safety_circle ** 2\<close>.
\<close>

definition make_safety_circle :: "tensor2 \<Rightarrow> tensor2" where
  "make_safety_circle dims = map (\<lambda>d. [1.3 * sqrt (sum_list (map (\<lambda>x. (x / 2)\<^sup>2) d))]) dims"

definition make_area :: "tensor2 \<Rightarrow> tensor2" where
  "make_area sc = map (map (\<lambda>r. pi * r\<^sup>2)) sc"

text \<open>
  \<^verbatim>\<open>mul_factor * dimensions.unsqueeze(1) / 2\<close>: the 1 x 4 x 2 table of signs times
  the N x 1 x 2 dimensions, broadcast to N x 4 x 2. A row of dimensions with two
  entries multiplies entry by entry, a row with one entry is broadcast over both
  signs, any other row cannot be broadcast against the two columns of signs.
\<close>

definition mul_factor :: tensor2 where
  "mul_factor = [[1, 1], [1, -1], [-1, -1], [-1, 1]]"

fun mul_row :: "real list \<Rightarrow> real list \<Rightarrow> error + real list" where
  "mul_row [m0, m1] [l, w] = Inr [m0 * l / 2, m1 * w / 2]"
| "mul_row [m0, m1] [l] = Inr [m0 * l / 2, m1 * l / 2]"
| "mul_row m d = Inl RuntimeError"

definition make_base_coordinates :: "tensor2 \<Rightarrow> error + tensor3" where
  "make_base_coordinates dims = collect (map (\<lambda>d. collect (map (\<lambda>m. mul_row m d) mul_factor)) dims)"

text \<open>
  \<^verbatim>\<open>_get_coordinates\<close>: sets the flag and returns the transformed corners; it does
  not store them. The flag is set before the transform is called, so it stays set
  when the transform raises.
\<close>

definition private_get_coordinates :: "fleet \<Rightarrow> (error + tensor3) \<times> fleet" where
  "private_get_coordinates f =
     (let f' = f\<lparr>cached_coordinates := True\<rparr> in
      (case select_col0 (orientation f') of
         Inl e \<Rightarrow> Inl e
       | Inr theta \<Rightarrow>
           transform_2d_coordinates (base_coordinates f') theta (unsqueeze1 (position f')),
       f'))"

definition get_coordinates :: "fleet \<Rightarrow> (error + tensor3) \<times> fleet" where
  "get_coordinates f =
     (if cached_coordinates f then (Inr (coordinates f), f) else private_get_coordinates f)"

text \<open>
  \<^verbatim>\<open>__init__\<close>. The arguments are stored as they come, but for the two
  orientations, which are normalized. The batch size is the number of rows of
  \<open>position\<close>. The fields are assigned in the order of the source; the corners are
  computed by \<^verbatim>\<open>_get_coordinates\<close> on the object built so far and stored.
  The device of the tensors (\<^verbatim>\<open>self.to\<close>) is not modelled.
\<close>

definition init ::
  "tensor2 \<Rightarrow> tensor2 \<Rightarrow> tensor2 \<Rightarrow> tensor2 \<Rightarrow> tensor2 \<Rightarrow> tensor2 \<Rightarrow> string list
     \<Rightarrow> real \<Rightarrow> real \<Rightarrow> real \<Rightarrow> error + fleet" where
  "init position0 orientation0 destination0 dest_orientation0 dimensions0 initial_speed
        name0 min_lidar_range0 max_lidar_range0 vision_range0 =
     (case make_base_coordinates dimensions0 of
        Inl e \<Rightarrow> Inl e
      | Inr base \<Rightarrow>
          (let f = \<lparr> name = name0,
                     position = position0,
                     orientation = angle_normalize orientation0,
                     destination = destination0,
                     dest_orientation = angle_normalize dest_orientation0,
                     dimensions = dimensions0,
                     nbatch = length position0,
                     diag_bool_buffer = make_diag_bool_buffer (length position0),
                     speed = initial_speed,
                     safety_circle = make_safety_circle dimensions0,
                     area = make_area (make_safety_circle dimensions0),
                     base_coordinates = base,
                     cached_coordinates = False,
                     coordinates = [],
                     max_lidar_range = max_lidar_range0,
                     min_lidar_range = min_lidar_range0,
                     vision_range = vision_range0 \<rparr>
           in case private_get_coordinates f of
                (Inl e, f') \<Rightarrow> Inl e
              | (Inr c, f') \<Rightarrow> Inr (f'\<lparr>coordinates := c\<rparr>)))"

text \<open>
  \<^verbatim>\<open>get_edges\<close>: \<open>pt1\<close> is the corners; \<open>pt2\<close> concatenates, along dimension 1,
  the slices \<^verbatim>\<open>coordinates[:, :, 1:]\<close> and \<^verbatim>\<open>coordinates[:, :, 0:1]\<close>, which
  are taken along the last dimension. \<^verbatim>\<open>torch.cat\<close> needs the two slices to agree
  on the last dimension, which they do exactly when every corner has two entries.
\<close>

definition cat_dim1 :: "tensor3 \<Rightarrow> tensor3 \<Rightarrow> tensor3" where
  "cat_dim1 a b = map (\<lambda>(x, y). x @ y) (zip a b)"

definition get_edges :: "fleet \<Rightarrow> (error + tensor3 \<times> tensor3) \<times> fleet" where
  "get_edges f =
     (case get_coordinates f of
        (Inl e, f') \<Rightarrow> (Inl e, f')
      | (Inr c, f') \<Rightarrow>
          (if list_all (list_all (\<lambda>p. length p = 2)) c
           then Inr (c, cat_dim1 (map (map (drop 1)) c) (map (map (take 1)) c))
           else Inl RuntimeError, f'))"

text \<open>
  \<^verbatim>\<open>update_state\<close>: three slices of the columns of the state, stored as they are,
  and the flag reset. Slicing a tensor never raises; nothing is returned.
\<close>

definition update_state :: "fleet \<Rightarrow> tensor2 \<Rightarrow> fleet" where
  "update_state f state =
     f\<lparr> position := map (take 2) state,
        speed := map (\<lambda>r. take 1 (drop 2 r)) state,
        orientation := map (\<lambda>r. take 1 (drop 3 r)) state,
        cached_coordinates := False \<rparr>"

section \<open>Views and broadcasting\<close>

text \<open>
  \<^verbatim>\<open>t.view(-1, k)\<close> on the flattened elements: rows of \<open>k\<close> entries, a
  RuntimeError when the number of elements is not a multiple of \<open>k\<close>.
  \<^verbatim>\<open>t.view(n, m)\<close> needs exactly \<open>n * m\<close> elements.
\<close>

definition chunks :: "nat \<Rightarrow> nat \<Rightarrow> 'a list \<Rightarrow> 'a list list" where
  "chunks n k xs = map (\<lambda>i. take k (drop (i * k) xs)) [0..<n]"

definition view_cols :: "nat \<Rightarrow> 'a list \<Rightarrow> error + 'a list list" where
  "view_cols k xs =
     (if k dvd length xs then Inr (chunks (length xs div k) k xs) else Inl RuntimeError)"

definition view_rows_cols :: "nat \<Rightarrow> nat \<Rightarrow> 'a list \<Rightarrow> error + 'a list list" where
  "view_rows_cols n m xs = (if length xs = n * m then Inr (chunks n m xs) else Inl RuntimeError)"

text \<open>
  Elementwise operations broadcast: two sizes fit when they are equal or one of them
  is 1, and the entry of a dimension of size 1 is used at every index.
\<close>

definition bcast_ok :: "nat \<Rightarrow> nat \<Rightarrow> bool" where
  "bcast_ok a b = (a = b \<or> a = 1 \<or> b = 1)"

definition bcast_dim :: "nat \<Rightarrow> nat \<Rightarrow> nat" where
  "bcast_dim a b = (if a = 1 then b else a)"

definition pick :: "'a list \<Rightarrow> nat \<Rightarrow> 'a" where
  "pick xs i = (if length xs = 1 then xs ! 0 else xs ! i)"

definition broadcast1 :: "('a \<Rightarrow> 'b \<Rightarrow> 'c) \<Rightarrow> 'a list \<Rightarrow> 'b list \<Rightarrow> error + 'c list" where
  "broadcast1 g xs ys =
     (if bcast_ok (length xs) (length ys)
      then Inr (map (\<lambda>j. g (pick xs j) (pick ys j)) [0..<bcast_dim (length xs) (length ys)])
      else Inl RuntimeError)"

definition broadcast2 ::
  "('a \<Rightarrow> 'b \<Rightarrow> 'c) \<Rightarrow> 'a list list \<Rightarrow> 'b list list \<Rightarrow> error + 'c list list" where
  "broadcast2 g a b =
     (if bcast_ok (length a) (length b)
      then collect (map (\<lambda>i. broadcast1 g (pick a i) (pick b i))
                        [0..<bcast_dim (length a) (length b)])
      else Inl RuntimeError)"

section \<open>Collision check\<close>

text \<open>
  Modelled from the spec: \<^verbatim>\<open>check_intersection_lines\<close> is imported from
  \<^verbatim>\<open>sdriving.tsim.utils\<close>, which is not among the sources. The spec (4.3) gives
  the orientation-sign test with strict comparison: two segments intersect iff the
  endpoints of each lie strictly on opposite sides of the line of the other; touching
  and collinear segments do not intersect. In all-pairs mode the result is the matrix
  of the test of every segment of the first array against every segment of the second.
\<close>

definition orient :: "real list \<Rightarrow> real list \<Rightarrow> real list \<Rightarrow> real" where
  "orient a b c = (b ! 0 - a ! 0) * (c ! 1 - a ! 1) - (b ! 1 - a ! 1) * (c ! 0 - a ! 0)"

definition segments_intersect ::
  "real list \<Rightarrow> real list \<Rightarrow> real list \<Rightarrow> real list \<Rightarrow> bool" where
  "segments_intersect a1 a2 b1 b2 =
     (orient a1 a2 b1 * orient a1 a2 b2 < 0 \<and> orient b1 b2 a1 * orient b1 b2 a2 < 0)"

definition check_intersection_lines ::
  "tensor2 \<Rightarrow> tensor2 \<Rightarrow> tensor2 \<Rightarrow> tensor2 \<Rightarrow> error + bool list list" where
  "check_intersection_lines pt1_lines pt2_lines point1 point2 =
     (if length pt1_lines = length pt2_lines \<and> length point1 = length point2
      then Inr (map (\<lambda>(a1, a2). map (\<lambda>(b1, b2). segments_intersect a1 a2 b1 b2)
                                       (zip point1 point2))
                    (zip pt1_lines pt2_lines))
      else Inl RuntimeError)"

text \<open>
  \<^verbatim>\<open>c.view(nbatch, 4, -1).any(1).any(1)\<close>: the elements of \<open>c\<close> in \<open>nbatch\<close>
  blocks of \<open>4 * k\<close>, each reduced by "any". The size \<open>k\<close> of the last dimension is
  inferred, which torch refuses when \<open>nbatch * 4\<close> is 0 or does not divide the number
  of elements.
\<close>

definition view_any :: "nat \<Rightarrow> bool list list \<Rightarrow> error + bool list" where
  "view_any n c =
     (let flat = concat c in
      if 4 * n = 0 \<or> \<not> (4 * n) dvd length flat then Inl RuntimeError
      else Inr (map (\<lambda>blk. True \<in> set blk) (chunks n (length flat div n) flat)))"

definition collision_of_edges :: "fleet \<Rightarrow> tensor3 \<Rightarrow> tensor3 \<Rightarrow> error + bool list" where
  "collision_of_edges f p1 p2 =
     (case view_cols 2 (concat (concat p1)) of
        Inl e \<Rightarrow> Inl e
      | Inr q1 \<Rightarrow>
          (case view_cols 2 (concat (concat p2)) of
             Inl e \<Rightarrow> Inl e
           | Inr q2 \<Rightarrow>
               (case check_intersection_lines q1 q2 q1 q2 of
                  Inl e \<Rightarrow> Inl e
                | Inr m \<Rightarrow>
                    (case broadcast2 (\<and>) m (diag_bool_buffer f) of
                       Inl e \<Rightarrow> Inl e
                     | Inr c \<Rightarrow> view_any (nbatch f) c))))"

definition collision_check :: "fleet \<Rightarrow> (error + bool list) \<times> fleet" where
  "collision_check f =
     (case get_edges f of
        (Inl e, f') \<Rightarrow> (Inl e, f')
      | (Inr (p1, p2), f') \<Rightarrow> (collision_of_edges f' p1 p2, f'))"

section \<open>Overlap of the safety circles\<close>

text \<open>
  Modelled from the spec: \<^verbatim>\<open>circle_area_overlap\<close> is imported from
  \<^verbatim>\<open>sdriving.tsim.utils\<close>, which is not among the sources. The spec (4.4) gives,
  for the distance \<open>d\<close> of the centers and the radii \<open>r1\<close>, \<open>r2\<close>: 0 when
  \<open>d \<ge> r1 + r2\<close>; \<open>\<pi> \<cdot> min(r1, r2)\<^sup>2\<close> when \<open>d \<le> |r1 - r2|\<close>; otherwise the sum of the
  two circular segments whose half-angles come from the law of cosines, the arguments
  of the inverse cosine clamped to [-1, 1]. It is applied row by row to centers
  M x 2 and radii M x 1.
\<close>

definition clamp :: "real \<Rightarrow> real \<Rightarrow> real \<Rightarrow> real" where
  "clamp lo hi x = min hi (max lo x)"

definition lens_area :: "real \<Rightarrow> real \<Rightarrow> real \<Rightarrow> real" where
  "lens_area d r1 r2 =
     (if d \<ge> r1 + r2 then 0
      else if d \<le> \<bar>r1 - r2\<bar> then pi * (min r1 r2)\<^sup>2
      else (let a1 = arccos (clamp (-1) 1 ((d\<^sup>2 + r1\<^sup>2 - r2\<^sup>2) / (2 * d * r1)));
                a2 = arccos (clamp (-1) 1 ((d\<^sup>2 + r2\<^sup>2 - r1\<^sup>2) / (2 * d * r2)))
            in r1\<^sup>2 * (a1 - sin (2 * a1) / 2) + r2\<^sup>2 * (a2 - sin (2 * a2) / 2)))"

fun circle_area_overlap1 ::
  "real list \<Rightarrow> real list \<Rightarrow> real list \<Rightarrow> real list \<Rightarrow> error + real" where
  "circle_area_overlap1 [x1, y1] [x2, y2] [r1] [r2] =
     Inr (lens_area (sqrt ((x1 - x2)\<^sup>2 + (y1 - y2)\<^sup>2)) r1 r2)"
| "circle_area_overlap1 c1 c2 r1 r2 = Inl RuntimeError"

definition circle_area_overlap ::
  "tensor2 \<Rightarrow> tensor2 \<Rightarrow> tensor2 \<Rightarrow> tensor2 \<Rightarrow> error + real list" where
  "circle_area_overlap center1 center2 radius1 radius2 =
     (if length center2 = length center1 \<and> length radius1 = length center1
         \<and> length radius2 = length center1
      then collect (map (\<lambda>(c1, c2, r1, r2). circle_area_overlap1 c1 c2 r1 r2)
                        (zip center1 (zip center2 (zip radius1 radius2))))
      else Inl RuntimeError)"

text \<open>
  \<^verbatim>\<open>safety_circle_overlap\<close>. \<^verbatim>\<open>t.repeat(n, 1)\<close> tiles the rows of \<open>t\<close>
  \<open>n\<close> times; \<^verbatim>\<open>t.unsqueeze(0).repeat(n, 1, 1).view(-1, k)\<close> flattens \<open>n\<close>
  copies of \<open>t\<close> into rows of \<open>k\<close> entries.
\<close>

definition repeat_rows :: "nat \<Rightarrow> 'a list \<Rightarrow> 'a list" where
  "repeat_rows n t = concat (replicate n t)"

definition safety_circle_overlap :: "fleet \<Rightarrow> fleet \<Rightarrow> error + tensor2" where
  "safety_circle_overlap obj1 obj2 =
     (let center1 = repeat_rows (nbatch obj2) (position obj1) in
      case view_cols 2 (concat (repeat_rows (nbatch obj1) (position obj2))) of
        Inl e \<Rightarrow> Inl e
      | Inr center2 \<Rightarrow>
          (let radius1 = repeat_rows (nbatch obj2) (safety_circle obj1) in
           case view_cols 1 (concat (repeat_rows (nbatch obj1) (safety_circle obj2))) of
             Inl e \<Rightarrow> Inl e
           | Inr radius2 \<Rightarrow>
               (case circle_area_overlap center1 center2 radius1 radius2 of
                  Inl e \<Rightarrow> Inl e
                | Inr a \<Rightarrow> view_rows_cols (nbatch obj1) (nbatch obj2) a)))"

section \<open>Heading to a point\<close>

text \<open>
  \<^verbatim>\<open>optimal_heading_to_point\<close>. \<^verbatim>\<open>torch.norm(vec, dim=1)\<close> has shape N and
  divides the N x 2 tensor \<open>vec\<close> as a 1 x N tensor; \<^verbatim>\<open>torch.cat\<close> without a
  dimension concatenates along dimension 0, so \<open>cur_vec\<close> has shape 2 N x 1.
\<close>

definition norm_dim1 :: "tensor2 \<Rightarrow> tensor1" where
  "norm_dim1 t = map (\<lambda>r. sqrt (sum_list (map (\<lambda>x. x\<^sup>2) r))) t"

definition optimal_heading_to_point :: "fleet \<Rightarrow> tensor2 \<Rightarrow> error + tensor2" where
  "optimal_heading_to_point f point =
     (case broadcast2 (-) point (position f) of
        Inl e \<Rightarrow> Inl e
      | Inr vec0 \<Rightarrow>
          (case broadcast2 (/) vec0 [map (\<lambda>n. n + 1 / 10 ^ 7) (norm_dim1 vec0)] of
             Inl e \<Rightarrow> Inl e
           | Inr vec \<Rightarrow>
               (let cur_vec = map (map cos) (orientation f) @ map (map sin) (orientation f) in
                case broadcast2 (*) vec cur_vec of
                  Inl e \<Rightarrow> Inl e
                | Inr dots \<Rightarrow>
                    Inr (angle_normalize
                          (map (map arccos)
                            (map (map (clamp (- 1 + 1 / 10 ^ 5) (1 - 1 / 10 ^ 5)))
                              (map (\<lambda>r. [sum_list r]) dots)))))))"

text \<open>Runs a query on the fleet a construction returns.\<close>

definition on_fleet :: "error + fleet \<Rightarrow> (fleet \<Rightarrow> 'a) \<Rightarrow> 'a option" where
  "on_fleet r g = (case r of Inl e \<Rightarrow> None | Inr f \<Rightarrow> Some (g f))"

text \<open>
  The fleet that the constructor returns for one car of length 4 and width 2 at the
  origin with orientation 0 (see \<open>init_one_car\<close> below).
\<close>

definition one_car :: fleet where
  "one_car = \<lparr> name = [''car''],
               position = [[0, 0]],
               orientation = [[0]],
               destination = [[5, 5]],
               dest_orientation = [[0]],
               dimensions = [[4, 2]],
               nbatch = 1,
               diag_bool_buffer = make_diag_bool_buffer 1,
               speed = [[0]],
               safety_circle = make_safety_circle [[4, 2]],
               area = make_area (make_safety_circle [[4, 2]]),
               base_coordinates = [[[2, 1], [2, - 1], [- 2, - 1], [- 2, 1]]],
               cached_coordinates = True,
               coordinates = [[[2, 1], [2, - 1], [- 2, - 1], [- 2, 1]]],
               max_lidar_range = 50,
               min_lidar_range = 2.5,
               vision_range = 50 \<rparr>"


section \<open>What the spec says of the corners\<close>

text \<open>
  The spec's data model: the base corners of a vehicle of dimensions (length, width)
  are the four sign combinations (l/2, w/2), (l/2, -w/2), (-l/2, -w/2), (-l/2, w/2);
  the world corner of a local corner is \<open>R(\<theta>) \<cdot> local + position\<close>, with the rotation
  matrix of the angle. \<open>world_corners\<close> recomputes the corners of a whole fleet from
  its base corners, its N x 1 orientations and its N x 2 positions.
\<close>

definition base_corners :: "real list \<Rightarrow> tensor2" where
  "base_corners d =
     [[d ! 0 / 2, d ! 1 / 2], [d ! 0 / 2, - (d ! 1) / 2],
      [- (d ! 0) / 2, - (d ! 1) / 2], [- (d ! 0) / 2, d ! 1 / 2]]"

definition world_corner :: "real \<Rightarrow> real list \<Rightarrow> real list \<Rightarrow> real list" where
  "world_corner th p b =
     [cos th * b ! 0 - sin th * b ! 1 + p ! 0, sin th * b ! 0 + cos th * b ! 1 + p ! 1]"

definition world_corners :: "tensor3 \<Rightarrow> tensor2 \<Rightarrow> tensor2 \<Rightarrow> tensor3" where
  "world_corners base ori pos =
     map (\<lambda>i. map (world_corner (ori ! i ! 0) (pos ! i)) (base ! i)) [0..<length base]"

section \<open>Normalized angles\<close>

lemma angle_normalize1_range: "- pi < angle_normalize1 a \<and> angle_normalize1 a \<le> pi"
proof -
  define k where "k = \<lceil>(a - pi) / (2 * pi)\<rceil>"
  have "of_int k - 1 < (a - pi) / (2 * pi)" "(a - pi) / (2 * pi) \<le> of_int k"
    unfolding k_def by linarith+
  then have "(of_int k - 1) * (2 * pi) < a - pi" "a - pi \<le> of_int k * (2 * pi)"
    by (simp_all add: pos_less_divide_eq pos_divide_le_eq)
  then show ?thesis unfolding angle_normalize1_def k_def[symmetric]
    by (simp add: algebra_simps)
qed

lemma angle_normalize1_id:
  assumes "- pi < a" and "a \<le> pi"
  shows "angle_normalize1 a = a"
proof -
  have "-1 < (a - pi) / (2 * pi)" "(a - pi) / (2 * pi) \<le> 0"
    using assms by (simp_all add: pos_less_divide_eq pos_divide_le_eq divide_le_0_iff)
  then have "\<lceil>(a - pi) / (2 * pi)\<rceil> = 0" by linarith
  then show ?thesis by (simp add: angle_normalize1_def)
qed

lemma angle_normalize1_zero: "angle_normalize1 0 = 0"
  by (rule angle_normalize1_id) simp_all

text \<open>
  After construction every orientation and every dest_orientation lies in (-pi, pi].
\<close>

lemma angle_normalize_range:
  "\<forall>row \<in> set (angle_normalize t). \<forall>a \<in> set row. - pi < a \<and> a \<le> pi"
  using angle_normalize1_range by (auto simp add: angle_normalize_def)

lemma private_get_coordinates_snd:
  "snd (private_get_coordinates f) = f\<lparr>cached_coordinates := True\<rparr>"
  by (simp add: private_get_coordinates_def Let_def)

lemma init_normalizes:
  assumes "init position0 orientation0 destination0 dest_orientation0 dimensions0
              initial_speed name0 min_lidar max_lidar vision = Inr f"
  shows "orientation f = angle_normalize orientation0"
    and "dest_orientation f = angle_normalize dest_orientation0"
  using assms private_get_coordinates_snd
  by (auto simp add: init_def Let_def prod_eq_iff split: sum.splits prod.splits)

lemma init_orientations_in_range:
  assumes "init position0 orientation0 destination0 dest_orientation0 dimensions0
              initial_speed name0 min_lidar max_lidar vision = Inr f"
  shows "(\<forall>row \<in> set (orientation f). \<forall>a \<in> set row. - pi < a \<and> a \<le> pi)
       \<and> (\<forall>row \<in> set (dest_orientation f). \<forall>a \<in> set row. - pi < a \<and> a \<le> pi)"
  unfolding init_normalizes[OF assms] using angle_normalize_range by blast

section \<open>A fleet of one car\<close>

text \<open>
  The examples below run on the fleet of one car of length 4 and width 2, built at
  the origin with orientation 0.
\<close>

lemmas init_eval = init_def make_base_coordinates_def mul_factor_def
  private_get_coordinates_def select_col0_def angle_normalize_def angle_normalize1_zero
  transform_2d_coordinates_def unsqueeze1_def make_safety_circle_def make_area_def
  on_fleet_def

text \<open>
  C1. The claim: \<open>get_edges\<close> returns two N x 4 x 2 arrays, \<open>p1[i]\<close> corner \<open>i\<close> and
  \<open>p2[i]\<close> corner \<open>i + 1 mod 4\<close>. The code slices the last dimension instead of the
  corner dimension: for the car with corners (2,1), (2,-1), (-2,-1), (-2,1) the second
  array has shape 1 x 8 x 1 and holds the four y coordinates followed by the four x
  coordinates, where the claim has the corners (2,-1), (-2,-1), (-2,1), (2,1).
\<close>

theorem get_edges_slices_last_dimension:
  "on_fleet (init [[0, 0]] [[0]] [[5, 5]] [[0]] [[4, 2]] [[0]] [''car''] 2.5 50 50)
     (\<lambda>f. fst (get_edges f)) =
   Some (Inr ([[[2, 1], [2, - 1], [- 2, - 1], [- 2, 1]]],
              [[[1], [- 1], [- 1], [1], [2], [2], [- 2], [- 2]]]))"
  by (simp add: init_eval get_edges_def get_coordinates_def cat_dim1_def)

text \<open>
  C2. The claim: two calls of \<open>get_coordinates\<close> with no \<open>update_state\<close> between them
  return the same value, and the cached value is that of the current pose. After an
  \<open>update_state\<close> that moves the car to (10, 0), the first call recomputes and sets
  the flag without storing the result, so the second call returns the corners stored
  at construction.
\<close>

theorem get_coordinates_second_call_is_stale:
  "on_fleet (init [[0, 0]] [[0]] [[5, 5]] [[0]] [[4, 2]] [[0]] [''car''] 2.5 50 50)
     (\<lambda>f. let (r1, f1) = get_coordinates (update_state f [[10, 0, 0, 0]]);
              (r2, f2) = get_coordinates f1
          in (r1, cached_coordinates f1, r2)) =
   Some (Inr [[[12, 1], [12, - 1], [8, - 1], [8, 1]]], True,
         Inr [[[2, 1], [2, - 1], [- 2, - 1], [- 2, 1]]])"
  by (simp add: init_eval get_coordinates_def update_state_def)

text \<open>
  C4. The claim: after construction and after every \<open>update_state\<close> every orientation
  lies in (-pi, pi]. The constructor normalizes (\<open>init_orientations_in_range\<close>);
  \<open>update_state\<close> stores column 3 as it comes: after a state with orientation 4 the
  fleet's orientation is 4, above pi.
\<close>

theorem update_state_keeps_raw_orientation:
  "on_fleet (init [[0, 0]] [[0]] [[5, 5]] [[0]] [[4, 2]] [[0]] [''car''] 2.5 50 50)
     (\<lambda>f. orientation (update_state f [[0, 0, 0, 4]])) = Some [[4]] \<and> pi < 4"
  using pi_less_4 by (simp add: init_eval update_state_def)

lemma init_one_car:
  "init [[0, 0]] [[0]] [[5, 5]] [[0]] [[4, 2]] [[0]] [''car''] 2.5 50 50 = Inr one_car"
  by (simp add: init_eval one_car_def)

lemma one_car_fields:
  "nbatch one_car = 1" "dimensions one_car = [[4, 2]]" "destination one_car = [[5, 5]]"
  "position one_car = [[0, 0]]" "orientation one_car = [[0]]"
  "base_coordinates one_car = [[[2, 1], [2, - 1], [- 2, - 1], [- 2, 1]]]"
  "coordinates one_car = [[[2, 1], [2, - 1], [- 2, - 1], [- 2, 1]]]"
  "cached_coordinates one_car" "diag_bool_buffer one_car = make_diag_bool_buffer 1"
  by (simp_all add: one_car_def)

section \<open>The state update\<close>

lemma row4_shape: "4 \<le> length r \<Longrightarrow> \<exists>a b c d rest. r = a # b # c # d # rest"
  by (auto simp add: numeral_eq_Suc Suc_le_length_iff)

lemma row4_slices:
  assumes "4 \<le> length r"
  shows "take 2 r = [r ! 0, r ! 1]" and "take 1 (drop 2 r) = [r ! 2]"
    and "take 1 (drop 3 r) = [r ! 3]"
proof -
  obtain a b c d rest where r: "r = a # b # c # d # rest"
    using row4_shape[OF assms] by blast
  show "take 2 r = [r ! 0, r ! 1]" "take 1 (drop 2 r) = [r ! 2]" "take 1 (drop 3 r) = [r ! 3]"
    by (simp_all add: r numeral_2_eq_2 numeral_3_eq_3)
qed

lemma state_slices:
  assumes "\<forall>r \<in> set state. 4 \<le> length r"
  shows "map (take 2) state = map (\<lambda>r. [r ! 0, r ! 1]) state"
    and "map (\<lambda>r. take 1 (drop 2 r)) state = map (\<lambda>r. [r ! 2]) state"
    and "map (\<lambda>r. take 1 (drop 3 r)) state = map (\<lambda>r. [r ! 3]) state"
  using assms by (auto intro!: map_cong[OF refl] simp only: row4_slices)

lemma slices_of_take4:
  "take 2 (take 4 r) = take 2 r" "take 1 (drop 2 (take 4 r)) = take 1 (drop 2 r)"
  "take 1 (drop 3 (take 4 r)) = take 1 (drop 3 r)"
  by (simp_all only: drop_take take_take) simp_all

text \<open>
  C9. For every state of rows (x, y, speed, orientation), \<open>update_state\<close> overwrites
  the position with columns 0 and 1, the speed with column 2 and the orientation with
  column 3, resets the cache flag, and leaves every other field as it was: destination,
  dest_orientation, dimensions, base corners, safety radius and area, names, the lidar
  and vision ranges (and the batch size, the mask and the stored corners). The model
  returns the updated fleet and nothing else.
\<close>

theorem update_state_frame:
  assumes "\<forall>r \<in> set state. length r = 4"
  shows "position (update_state f state) = map (\<lambda>r. [r ! 0, r ! 1]) state
       \<and> speed (update_state f state) = map (\<lambda>r. [r ! 2]) state
       \<and> orientation (update_state f state) = map (\<lambda>r. [r ! 3]) state
       \<and> \<not> cached_coordinates (update_state f state)
       \<and> destination (update_state f state) = destination f
       \<and> dest_orientation (update_state f state) = dest_orientation f
       \<and> dimensions (update_state f state) = dimensions f
       \<and> base_coordinates (update_state f state) = base_coordinates f
       \<and> safety_circle (update_state f state) = safety_circle f
       \<and> area (update_state f state) = area f
       \<and> name (update_state f state) = name f
       \<and> min_lidar_range (update_state f state) = min_lidar_range f
       \<and> max_lidar_range (update_state f state) = max_lidar_range f
       \<and> vision_range (update_state f state) = vision_range f
       \<and> nbatch (update_state f state) = nbatch f
       \<and> diag_bool_buffer (update_state f state) = diag_bool_buffer f
       \<and> coordinates (update_state f state) = coordinates f"
proof -
  have "\<forall>r \<in> set state. 4 \<le> length r" using assms by simp
  note s = state_slices[OF this]
  show ?thesis unfolding update_state_def s by simp
qed

theorem update_state_frame_witness:
  "list_all (\<lambda>r. length r = 4) [[7, 8, 3, 1 :: real]]
   \<and> position (update_state one_car [[7, 8, 3, 1]]) = [[7, 8]]
   \<and> speed (update_state one_car [[7, 8, 3, 1]]) = [[3]]
   \<and> orientation (update_state one_car [[7, 8, 3, 1]]) = [[1]]
   \<and> \<not> cached_coordinates (update_state one_car [[7, 8, 3, 1]])
   \<and> dimensions (update_state one_car [[7, 8, 3, 1]]) = [[4, 2]]
   \<and> destination (update_state one_car [[7, 8, 3, 1]]) = [[5, 5]]"
  using update_state_frame[of "[[7, 8, 3, 1]]" one_car] by (simp add: one_car_fields)

text \<open>
  C10. \<open>update_state\<close> validates nothing. For every state whose rows have at least
  four columns, whatever the number of rows: the result is that of the state cut to
  its first four columns, so further columns are ignored; columns 0 to 3 are what is
  stored; the position has as many rows as the state, while the batch size of the
  fleet stays what it was, so the two may differ. The update is a total function
  with no error result: the slices of the source cannot raise.
\<close>

theorem update_state_unvalidated:
  assumes "\<forall>r \<in> set state. 4 \<le> length r"
  shows "update_state f state = update_state f (map (take 4) state)
       \<and> position (update_state f state) = map (\<lambda>r. [r ! 0, r ! 1]) state
       \<and> speed (update_state f state) = map (\<lambda>r. [r ! 2]) state
       \<and> orientation (update_state f state) = map (\<lambda>r. [r ! 3]) state
       \<and> length (position (update_state f state)) = length state
       \<and> nbatch (update_state f state) = nbatch f"
proof -
  note s = state_slices[OF assms]
  have "update_state f (map (take 4) state) = update_state f state"
    unfolding update_state_def map_map comp_def slices_of_take4 ..
  then show ?thesis unfolding update_state_def s by simp
qed

theorem update_state_unvalidated_witness:
  "list_all (\<lambda>r. 4 \<le> length r) [[1, 2, 3, 4, 9], [5, 6, 7, 8, 9], [0, 0, 0, 0, 9 :: real]]
   \<and> update_state one_car [[1, 2, 3, 4, 9], [5, 6, 7, 8, 9], [0, 0, 0, 0, 9]]
       = update_state one_car [[1, 2, 3, 4], [5, 6, 7, 8], [0, 0, 0, 0]]
   \<and> position (update_state one_car [[1, 2, 3, 4, 9], [5, 6, 7, 8, 9], [0, 0, 0, 0, 9]])
       = [[1, 2], [5, 6], [0, 0]]
   \<and> nbatch (update_state one_car [[1, 2, 3, 4, 9], [5, 6, 7, 8, 9], [0, 0, 0, 0, 9]]) = 1"
proof -
  let ?S = "[[1, 2, 3, 4, 9], [5, 6, 7, 8, 9], [0, 0, 0, 0, 9 :: real]]"
  have h: "\<forall>r \<in> set ?S. 4 \<le> length r" by simp
  note t = update_state_unvalidated[OF h, of one_car]
  have "update_state one_car ?S = update_state one_car [[1, 2, 3, 4], [5, 6, 7, 8], [0, 0, 0, 0]]"
    using t[THEN conjunct1] by simp
  moreover have "position (update_state one_car ?S) = [[1, 2], [5, 6], [0, 0]]"
    and "nbatch (update_state one_car ?S) = 1"
    using t[THEN conjunct2] by (simp_all add: one_car_fields)
  ultimately show ?thesis by simp
qed

section \<open>Evaluating views and broadcasts\<close>

lemma sqrt_25: "sqrt 25 = 5"
  by (rule real_sqrt_unique) simp_all

lemma arccos_near_one: "arccos (99999 / 100000) \<noteq> pi / 2"
proof
  assume a: "arccos (99999 / 100000) = pi / 2"
  have "cos (arccos (99999 / 100000)) = (99999 / 100000 :: real)"
    by (rule cos_arccos) simp_all
  moreover from a have "cos (arccos (99999 / 100000)) = cos (pi / 2)"
    by (rule arg_cong)
  ultimately have "cos (pi / 2) = (99999 / 100000 :: real)" by (simp only:)
  then show False by simp
qed

lemma angle_normalize1_arccos:
  assumes "- 1 \<le> y" and "y \<le> 1"
  shows "angle_normalize1 (arccos y) = arccos y"
proof (rule angle_normalize1_id)
  have "0 \<le> arccos y" using assms by (rule arccos_lbound)
  then show "- pi < arccos y" using pi_gt_zero by linarith
  show "arccos y \<le> pi" using assms by (rule arccos_ubound)
qed

lemma angle_normalize1_half_pi: "angle_normalize1 (pi / 2) = pi / 2"
  by (rule angle_normalize1_id) (use pi_gt_zero in linarith)+

lemmas tensor_eval = broadcast2_def broadcast1_def bcast_ok_def bcast_dim_def pick_def
  view_cols_def view_rows_cols_def chunks_def repeat_rows_def
  upt_rec[of _ "numeral _"] upt_rec[of 0 "Suc 0"] upt_rec[of _ "Suc (Suc 0)"]
  dvd_eq_mod_eq_0 mod_Suc div_Suc

text \<open>
  C5. The claim: entry [i, j] of \<open>safety_circle_overlap(A, B)\<close> is the overlap of the
  circle of vehicle i of A with the circle of vehicle j of B. The code tiles the
  positions and radii of A (\<^verbatim>\<open>repeat(obj2.nbatch, 1)\<close>), so the flat entry
  \<open>i * N_B + j\<close> pairs vehicle \<open>(i * N_B + j) mod N_A\<close> of A with vehicle j of B
  (\<open>safety_circle_overlap_entries\<close> below). For
  a fleet of two cars 100 apart, each with safety radius 6.5, paired with itself,
  every entry is the full area of a circle, also entries [0, 1] and [1, 0], where the
  overlap of the two circles is 0.
\<close>

theorem safety_circle_overlap_pairs_wrong_vehicle:
  "on_fleet (init [[0, 0], [100, 0]] [[0], [0]] [[5, 5], [5, 5]] [[0], [0]]
                  [[6, 8], [6, 8]] [[0], [0]] [''a'', ''b''] 2.5 50 50)
     (\<lambda>f. safety_circle_overlap f f) =
   Some (Inr [[pi * (13 / 2)\<^sup>2, pi * (13 / 2)\<^sup>2], [pi * (13 / 2)\<^sup>2, pi * (13 / 2)\<^sup>2]])
   \<and> lens_area (sqrt ((0 - 100)\<^sup>2 + (0 - 0)\<^sup>2)) (13 / 2) (13 / 2) = 0"
  by (simp add: init_eval safety_circle_overlap_def tensor_eval
        circle_area_overlap_def sqrt_25 lens_area_def Let_def)

text \<open>
  C6. The claim: \<open>optimal_heading_to_point\<close> returns one angle per vehicle, pi / 2 for
  a car at the origin with orientation 0 and the point (0, 5). The code builds the
  heading vector with \<^verbatim>\<open>torch.cat\<close> along dimension 0, a 2 N x 1 tensor where its
  comment says N x 2. For the one car the product broadcasts to 2 x 2 and the result
  has two rows, the first arccos 0.99999, which is not pi / 2; for two cars the
  shapes 2 x 2 and 4 x 1 cannot be broadcast and the call raises.
\<close>

theorem optimal_heading_to_point_wrong_shape:
  "on_fleet (init [[0, 0]] [[0]] [[5, 5]] [[0]] [[4, 2]] [[0]] [''car''] 2.5 50 50)
     (\<lambda>f. optimal_heading_to_point f [[0, 5]]) =
   Some (Inr [[arccos (99999 / 100000)], [pi / 2]])
   \<and> arccos (99999 / 100000) \<noteq> pi / 2
   \<and> on_fleet (init [[0, 0], [10, 0]] [[0], [0]] [[5, 5], [5, 5]] [[0], [0]]
                    [[4, 2], [4, 2]] [[0], [0]] [''a'', ''b''] 2.5 50 50)
       (\<lambda>f. optimal_heading_to_point f [[0, 5]]) = Some (Inl RuntimeError)"
  using arccos_near_one
  by (simp add: init_eval optimal_heading_to_point_def tensor_eval norm_dim1_def sqrt_25
        clamp_def angle_normalize1_arccos angle_normalize1_half_pi
        del: times_divide_eq_left)

section \<open>Construction\<close>

lemma collect_map_Inr:
  assumes "\<And>x. x \<in> set xs \<Longrightarrow> g x = Inr (h x)"
  shows "collect (map g xs) = Inr (map h xs)"
  using assms by (induction xs) simp_all

lemma len2_shape: "length r = 2 \<Longrightarrow> \<exists>a b. r = [a, b]"
  by (auto simp add: numeral_2_eq_2 length_Suc_conv)

lemma len1_shape: "length r = 1 \<Longrightarrow> \<exists>a. r = [a]"
  by (auto simp add: length_Suc_conv)

lemma base_row: 
  assumes "length d = 2"
  shows "collect (map (\<lambda>m. mul_row m d) mul_factor) = Inr (base_corners d)"
proof -
  obtain l w where d: "d = [l, w]" using len2_shape[OF assms] by blast
  show ?thesis by (simp add: d mul_factor_def base_corners_def)
qed

lemma make_base_coordinates_ok:
  assumes "\<forall>d \<in> set dims. length d = 2"
  shows "make_base_coordinates dims = Inr (map base_corners dims)"
  unfolding make_base_coordinates_def
  by (rule collect_map_Inr) (use assms in \<open>simp add: base_row\<close>)

lemma rotate_translate_ok:
  assumes "length t = 2" and "length b = 2"
  shows "rotate_translate th t b = Inr (world_corner th t b)"
proof -
  obtain tx ty where t: "t = [tx, ty]" using len2_shape[OF assms(1)] by blast
  obtain x y where b: "b = [x, y]" using len2_shape[OF assms(2)] by blast
  show ?thesis by (simp add: t b world_corner_def mult.commute)
qed

lemma transform_vehicle_ok:
  assumes "\<forall>b \<in> set cs. length b = 2" and "length t = 2"
  shows "transform_vehicle cs th [t] = Inr (map (world_corner th t) cs)"
  using assms by (simp add: collect_map_Inr rotate_translate_ok)

lemma zip3_nth_map:
  assumes "length ys = length xs" and "length zs = length xs"
  shows "map (\<lambda>(x, y, z). g x y z) (zip xs (zip ys zs))
         = map (\<lambda>i. g (xs ! i) (ys ! i) (zs ! i)) [0..<length xs]"
  using assms by (auto intro!: nth_equalityI)

lemma transform_2d_coordinates_ok:
  assumes len: "length ori = length base" "length pos = length base"
    and base: "\<forall>cs \<in> set base. \<forall>b \<in> set cs. length b = 2"
    and ori: "\<forall>a \<in> set ori. length a = 1"
    and pos: "\<forall>p \<in> set pos. length p = 2"
  shows "transform_2d_coordinates base (map hd ori) (unsqueeze1 pos)
         = Inr (world_corners base ori pos)"
proof -
  have hd0: "hd (ori ! i) = ori ! i ! 0" if "i < length base" for i
  proof -
    have "length (ori ! i) = 1" using ori that len by simp
    then obtain a where "ori ! i = [a]" using len1_shape by blast
    then show ?thesis by simp
  qed
  have "collect (map (\<lambda>i. transform_vehicle (base ! i) (map hd ori ! i) (unsqueeze1 pos ! i))
                     [0..<length base])
        = Inr (map (\<lambda>i. map (world_corner (ori ! i ! 0) (pos ! i)) (base ! i)) [0..<length base])"
  proof (rule collect_map_Inr)
    fix i assume "i \<in> set [0..<length base]"
    then have i: "i < length base" by simp
    have "transform_vehicle (base ! i) (hd (ori ! i)) [pos ! i]
          = Inr (map (world_corner (hd (ori ! i)) (pos ! i)) (base ! i))"
      by (rule transform_vehicle_ok) (use i base pos len in \<open>auto simp add: all_set_conv_all_nth\<close>)
    then show "transform_vehicle (base ! i) (map hd ori ! i) (unsqueeze1 pos ! i)
          = Inr (map (world_corner (ori ! i ! 0) (pos ! i)) (base ! i))"
      using i len by (simp add: unsqueeze1_def hd0)
  qed
  then show ?thesis
    using len by (simp add: transform_2d_coordinates_def world_corners_def zip3_nth_map unsqueeze1_def)
qed

lemma select_col0_ok:
  assumes "\<forall>a \<in> set ori. length a = 1"
  shows "select_col0 ori = Inr (map hd ori)"
proof -
  have "[] \<notin> set ori" using assms by auto
  then show ?thesis by (simp add: select_col0_def)
qed

lemma private_get_coordinates_ok:
  assumes "length (orientation f) = length (base_coordinates f)"
    and "length (position f) = length (base_coordinates f)"
    and "\<forall>cs \<in> set (base_coordinates f). \<forall>b \<in> set cs. length b = 2"
    and "\<forall>a \<in> set (orientation f). length a = 1"
    and "\<forall>p \<in> set (position f). length p = 2"
  shows "private_get_coordinates f
         = (Inr (world_corners (base_coordinates f) (orientation f) (position f)),
            f\<lparr>cached_coordinates := True\<rparr>)"
  using assms
  by (simp add: private_get_coordinates_def select_col0_ok transform_2d_coordinates_ok)

lemma base_corners_len2: "\<forall>b \<in> set (base_corners d). length b = 2"
  by (simp add: base_corners_def)


text \<open>
  The fleet the constructor returns for a position N x 2, an orientation N x 1 and
  dimensions N x 2: its base corners are those of its dimensions and its stored
  corners are those of its pose.
\<close>

lemma init_result:
  assumes "length orientation0 = length position0"
    and "length dimensions0 = length position0"
    and "\<forall>p \<in> set position0. length p = 2"
    and "\<forall>a \<in> set orientation0. length a = 1"
    and "\<forall>d \<in> set dimensions0. length d = 2"
  shows "init position0 orientation0 destination0 dest_orientation0 dimensions0
              initial_speed name0 min_lidar max_lidar vision
         = Inr \<lparr> name = name0, position = position0,
                 orientation = angle_normalize orientation0,
                 destination = destination0,
                 dest_orientation = angle_normalize dest_orientation0,
                 dimensions = dimensions0, nbatch = length position0,
                 diag_bool_buffer = make_diag_bool_buffer (length position0),
                 speed = initial_speed,
                 safety_circle = make_safety_circle dimensions0,
                 area = make_area (make_safety_circle dimensions0),
                 base_coordinates = map base_corners dimensions0,
                 cached_coordinates = True,
                 coordinates = world_corners (map base_corners dimensions0)
                                 (angle_normalize orientation0) position0,
                 max_lidar_range = max_lidar, min_lidar_range = min_lidar,
                 vision_range = vision \<rparr>"
proof -
  have base: "make_base_coordinates dimensions0 = Inr (map base_corners dimensions0)"
    using assms(5) by (rule make_base_coordinates_ok)
  let ?f = "\<lparr> name = name0, position = position0,
               orientation = angle_normalize orientation0,
               destination = destination0,
               dest_orientation = angle_normalize dest_orientation0,
               dimensions = dimensions0, nbatch = length position0,
               diag_bool_buffer = make_diag_bool_buffer (length position0),
               speed = initial_speed,
               safety_circle = make_safety_circle dimensions0,
               area = make_area (make_safety_circle dimensions0),
               base_coordinates = map base_corners dimensions0,
               cached_coordinates = False, coordinates = [],
               max_lidar_range = max_lidar, min_lidar_range = min_lidar,
               vision_range = vision \<rparr>"
  have "private_get_coordinates ?f
        = (Inr (world_corners (base_coordinates ?f) (orientation ?f) (position ?f)),
           ?f\<lparr>cached_coordinates := True\<rparr>)"
    by (rule private_get_coordinates_ok)
       (use assms in \<open>simp_all add: angle_normalize_def base_corners_len2\<close>)
  then show ?thesis
    by (simp add: init_def base)
qed

lemma init_fresh:
  assumes "length orientation0 = length position0"
    and "length dimensions0 = length position0"
    and "\<forall>p \<in> set position0. length p = 2"
    and "\<forall>a \<in> set orientation0. length a = 1"
    and "\<forall>d \<in> set dimensions0. length d = 2"
    and "init position0 orientation0 destination0 dest_orientation0 dimensions0
              initial_speed name0 min_lidar max_lidar vision = Inr f"
  shows "length (dimensions f) = nbatch f"
    and "\<forall>d \<in> set (dimensions f). length d = 2"
    and "base_coordinates f = map base_corners (dimensions f)"
    and "coordinates f = world_corners (base_coordinates f) (orientation f) (position f)"
    and "diag_bool_buffer f = make_diag_bool_buffer (nbatch f)"
  using assms(6) unfolding init_result[OF assms(1-5)] using assms(1-5) by auto


text \<open>
  C8, as amended. The constructor validates nothing and has no ShapeMismatch error:
  it succeeds whenever position is N x 2, orientation N x 1 and dimensions N x 2 for
  one N, whatever the shapes of destination, dest_orientation, initial_speed and the
  names, and whatever the signs of the dimensions. The batch size is the number of
  rows of position, and the other arguments are stored as they come.
\<close>

theorem init_without_validation:
  assumes "length orientation0 = length position0"
    and "length dimensions0 = length position0"
    and "\<forall>p \<in> set position0. length p = 2"
    and "\<forall>a \<in> set orientation0. length a = 1"
    and "\<forall>d \<in> set dimensions0. length d = 2"
  shows "\<exists>f. init position0 orientation0 destination0 dest_orientation0 dimensions0
               initial_speed name0 min_lidar max_lidar vision = Inr f
           \<and> nbatch f = length position0
           \<and> position f = position0
           \<and> destination f = destination0
           \<and> dest_orientation f = angle_normalize dest_orientation0
           \<and> dimensions f = dimensions0
           \<and> speed f = initial_speed
           \<and> cached_coordinates f"
proof -
  have base: "make_base_coordinates dimensions0 = Inr (map base_corners dimensions0)"
    using assms(5) by (rule make_base_coordinates_ok)
  let ?f = "\<lparr> name = name0, position = position0,
               orientation = angle_normalize orientation0,
               destination = destination0,
               dest_orientation = angle_normalize dest_orientation0,
               dimensions = dimensions0, nbatch = length position0,
               diag_bool_buffer = make_diag_bool_buffer (length position0),
               speed = initial_speed,
               safety_circle = make_safety_circle dimensions0,
               area = make_area (make_safety_circle dimensions0),
               base_coordinates = map base_corners dimensions0,
               cached_coordinates = False, coordinates = [],
               max_lidar_range = max_lidar, min_lidar_range = min_lidar,
               vision_range = vision \<rparr>"
  have "private_get_coordinates ?f
        = (Inr (world_corners (base_coordinates ?f) (orientation ?f) (position ?f)),
           ?f\<lparr>cached_coordinates := True\<rparr>)"
    by (rule private_get_coordinates_ok)
       (use assms in \<open>simp_all add: angle_normalize_def base_corners_len2\<close>)
  then show ?thesis
    by (simp add: init_def base)
qed


theorem init_without_validation_witness:
  "length [[0 :: real], [0]] = length [[0, 0 :: real], [10, 0]]
   \<and> length [[- 4, 0 :: real], [4, 2]] = length [[0, 0 :: real], [10, 0]]
   \<and> list_all (\<lambda>p. length p = 2) [[0, 0 :: real], [10, 0]]
   \<and> list_all (\<lambda>a. length a = 1) [[0 :: real], [0]]
   \<and> list_all (\<lambda>d. length d = 2) [[- 4, 0 :: real], [4, 2]]
   \<and> (\<exists>f. init [[0, 0], [10, 0]] [[0], [0]] [[5, 5]] [[0]] [[- 4, 0], [4, 2]] [[0]]
               [''car''] 2.5 50 50 = Inr f
          \<and> nbatch f = 2 \<and> destination f = [[5, 5]] \<and> speed f = [[0]])"
  using init_without_validation
          [of "[[0], [0]]" "[[0, 0], [10, 0]]" "[[- 4, 0], [4, 2]]" "[[5, 5]]" "[[0]]" "[[0]]"
              "[''car'']" "2.5" 50 50]
  by auto


text \<open>
  The claim itself fails: a construction with one destination, one dest_orientation
  and one speed for two cars, one of them of length -4 and width 0, succeeds.
\<close>

theorem init_accepts_mismatch:
  "map_sum id nbatch (init [[0, 0], [10, 0]] [[0], [0]] [[5, 5]] [[0]] [[- 4, 0], [4, 2]]
                           [[0]] [''car''] 2.5 50 50) = Inr 2
   \<and> map_sum id destination (init [[0, 0], [10, 0]] [[0], [0]] [[5, 5]] [[0]]
                           [[- 4, 0], [4, 2]] [[0]] [''car''] 2.5 50 50) = Inr [[5, 5]]
   \<and> map_sum id dimensions (init [[0, 0], [10, 0]] [[0], [0]] [[5, 5]] [[0]]
                           [[- 4, 0], [4, 2]] [[0]] [''car''] 2.5 50 50)
       = Inr [[- 4, 0], [4, 2]]"
  by (simp add: init_eval)

section \<open>Corners after an update\<close>









section \<open>The collision check\<close>

lemma length_concat_uniform:
  assumes "\<forall>r \<in> set xs. length r = k"
  shows "length (concat xs) = length xs * k"
  using assms by (induction xs) simp_all

lemma drop_concat_uniform:
  assumes "\<forall>r \<in> set c. length r = k"
  shows "drop (i * k) (concat c) = concat (drop i c)"
  using assms
proof (induction c arbitrary: i)
  case Nil
  then show ?case by simp
next
  case (Cons r c)
  show ?case
  proof (cases i)
    case 0
    then show ?thesis by simp
  next
    case (Suc n)
    have "length r = k" using Cons.prems by simp
    moreover have "drop (n * k) (concat c) = concat (drop n c)"
      using Cons.IH Cons.prems by simp
    ultimately show ?thesis using Suc by simp
  qed
qed

lemma take_concat_uniform:
  assumes "\<forall>r \<in> set c. length r = k"
  shows "take (n * k) (concat c) = concat (take n c)"
  using assms
proof (induction c arbitrary: n)
  case Nil
  then show ?case by simp
next
  case (Cons r c)
  show ?case
  proof (cases n)
    case 0
    then show ?thesis by simp
  next
    case (Suc m)
    have "length r = k" using Cons.prems by simp
    moreover have "take (m * k) (concat c) = concat (take m c)"
      using Cons.IH Cons.prems by simp
    ultimately show ?thesis using Suc by simp
  qed
qed

lemma block_concat_uniform:
  assumes "\<forall>r \<in> set c. length r = k"
  shows "take (n * k) (drop (i * k) (concat c)) = concat (take n (drop i c))"
proof -
  have "\<forall>r \<in> set (drop i c). length r = k" using assms by (meson in_set_dropD)
  then show ?thesis
    unfolding drop_concat_uniform[OF assms] by (rule take_concat_uniform)
qed

lemma any_in_concat:
  "True \<in> set (concat xs) \<longleftrightarrow> (\<exists>e < length xs. \<exists>j < length (xs ! e). xs ! e ! j)"
proof
  assume "True \<in> set (concat xs)"
  then obtain r where r: "r \<in> set xs" "True \<in> set r" by auto
  from r(1) obtain e where e: "e < length xs" "xs ! e = r" by (auto simp add: in_set_conv_nth)
  from r(2) obtain j where j: "j < length r" "r ! j" by (auto simp add: in_set_conv_nth)
  show "\<exists>e < length xs. \<exists>j < length (xs ! e). xs ! e ! j" using e j by blast
next
  assume "\<exists>e < length xs. \<exists>j < length (xs ! e). xs ! e ! j"
  then obtain e j where ej: "e < length xs" "j < length (xs ! e)" "xs ! e ! j" by blast
  then have "xs ! e \<in> set xs" "True \<in> set (xs ! e)"
    by (auto simp add: in_set_conv_nth)
  then show "True \<in> set (concat xs)" by auto
qed

lemma any_in_block:
  assumes "i + n \<le> length c"
  shows "True \<in> set (concat (take n (drop i c)))
         \<longleftrightarrow> (\<exists>e < n. \<exists>j < length (c ! (i + e)). c ! (i + e) ! j)"
proof -
  have len: "length (take n (drop i c)) = n" using assms by simp
  have nth: "take n (drop i c) ! e = c ! (i + e)" if "e < n" for e
    using that assms by simp
  show ?thesis unfolding any_in_concat len by (metis nth)
qed

lemma broadcast2_same_shape:
  assumes "length a = n" and "length b = n" and "n \<noteq> 1" and "k \<noteq> 1"
    and "\<forall>i < n. length (a ! i) = k \<and> length (b ! i) = k"
  shows "broadcast2 g a b = Inr (map (\<lambda>i. map (\<lambda>j. g (a ! i ! j) (b ! i ! j)) [0..<k]) [0..<n])"
proof -
  have "collect (map (\<lambda>i. broadcast1 g (pick a i) (pick b i)) [0..<n])
        = Inr (map (\<lambda>i. map (\<lambda>j. g (a ! i ! j) (b ! i ! j)) [0..<k]) [0..<n])"
  proof (rule collect_map_Inr)
    fix i assume "i \<in> set [0..<n]"
    then have i: "i < n" by simp
    then have l: "length (a ! i) = k" "length (b ! i) = k" using assms(5) by simp_all
    show "broadcast1 g (pick a i) (pick b i) = Inr (map (\<lambda>j. g (a ! i ! j) (b ! i ! j)) [0..<k])"
      using assms(1-4) l by (simp add: broadcast1_def pick_def bcast_ok_def bcast_dim_def)
  qed
  then show ?thesis using assms(1-3) by (simp add: broadcast2_def bcast_ok_def bcast_dim_def)
qed

lemma check_intersection_lines_square:
  assumes "length q1 = m" and "length q2 = m"
  shows "check_intersection_lines q1 q2 q1 q2
         = Inr (map (\<lambda>i. map (\<lambda>j. segments_intersect (q1 ! i) (q2 ! i) (q1 ! j) (q2 ! j))
                            [0..<m]) [0..<m])"
  using assms by (auto simp add: check_intersection_lines_def intro!: nth_equalityI)

lemma view_any_blocks:
  assumes n: "0 < n" and len: "length c = 4 * n" and rows: "\<forall>r \<in> set c. length r = k"
  shows "view_any n c
         = Inr (map (\<lambda>v. \<exists>e < 4. \<exists>j < k. c ! (4 * v + e) ! j) [0..<n])"
proof -
  have flat: "length (concat c) = 4 * n * k"
    using len rows by (simp add: length_concat sum_list_triv map_replicate_const[symmetric] cong: map_cong)
  have dv: "length (concat c) div n = 4 * k" using flat n by simp
  have blk: "take (4 * k) (drop (v * (4 * k)) (concat c)) = concat (take 4 (drop (4 * v) c))" for v
  proof -
    have "take (4 * k) (drop ((4 * v) * k) (concat c)) = concat (take 4 (drop (4 * v) c))"
      by (rule block_concat_uniform[OF rows])
    then show ?thesis by (simp add: mult.assoc mult.left_commute mult.commute)
  qed
  have any: "True \<in> set (concat (take 4 (drop (4 * v) c)))
             \<longleftrightarrow> (\<exists>e < 4. \<exists>j < k. c ! (4 * v + e) ! j)" if "v < n" for v
  proof -
    have le: "4 * v + 4 \<le> length c" using that len by simp
    have "length (c ! (4 * v + e)) = k" if "e < 4" for e
      using rows le that by simp
    then show ?thesis unfolding any_in_block[OF le] by auto
  qed
  have "4 * n dvd length (concat c)" using flat by simp
  then show ?thesis using n any
    by (simp add: view_any_def Let_def chunks_def dv blk)
qed


lemma get_edges_keeps:
  "nbatch (snd (get_edges f)) = nbatch f"
  "diag_bool_buffer (snd (get_edges f)) = diag_bool_buffer f"
  by (simp_all add: get_edges_def get_coordinates_def private_get_coordinates_def Let_def
        split: prod.splits sum.splits)

lemma make_diag_bool_buffer_nth:
  assumes "i < 4 * n" and "j < 4 * n"
  shows "make_diag_bool_buffer n ! i ! j \<longleftrightarrow> i \<noteq> j"
  using assms by (simp add: make_diag_bool_buffer_def)

lemma collision_of_edges_rows:
  assumes n: "0 < nbatch f"
    and mask: "diag_bool_buffer f = make_diag_bool_buffer (nbatch f)"
    and q1: "view_cols 2 (concat (concat p1)) = Inr q1"
    and q2: "view_cols 2 (concat (concat p2)) = Inr q2"
    and l1: "length q1 = 4 * nbatch f" and l2: "length q2 = 4 * nbatch f"
  shows "collision_of_edges f p1 p2
         = Inr (map (\<lambda>v. \<exists>e < 4. \<exists>j < 4 * nbatch f. j \<noteq> 4 * v + e
                      \<and> segments_intersect (q1 ! (4 * v + e)) (q2 ! (4 * v + e)) (q1 ! j) (q2 ! j))
                    [0..<nbatch f])"
proof -
  define M where "M = 4 * nbatch f"
  define m where "m = map (\<lambda>i. map (\<lambda>j. segments_intersect (q1 ! i) (q2 ! i) (q1 ! j) (q2 ! j))
                            [0..<M]) [0..<M]"
  define c where "c = map (\<lambda>i. map (\<lambda>j. m ! i ! j \<and> make_diag_bool_buffer (nbatch f) ! i ! j)
                            [0..<M]) [0..<M]"
  have M1: "M \<noteq> 1" using n by (simp add: M_def)
  have em: "check_intersection_lines q1 q2 q1 q2 = Inr m"
    unfolding m_def by (rule check_intersection_lines_square) (simp_all add: M_def l1 l2)
  have ec: "broadcast2 (\<and>) m (make_diag_bool_buffer (nbatch f)) = Inr c"
    unfolding c_def
    by (rule broadcast2_same_shape)
       (use M1 in \<open>simp_all add: m_def M_def make_diag_bool_buffer_def\<close>)
  have ev: "view_any (nbatch f) c
           = Inr (map (\<lambda>v. \<exists>e < 4. \<exists>j < M. c ! (4 * v + e) ! j) [0..<nbatch f])"
    by (rule view_any_blocks) (use n in \<open>simp_all add: c_def M_def\<close>)
  have cij: "c ! (4 * v + e) ! j
             \<longleftrightarrow> j \<noteq> 4 * v + e
                \<and> segments_intersect (q1 ! (4 * v + e)) (q2 ! (4 * v + e)) (q1 ! j) (q2 ! j)"
    if "v < nbatch f" "e < 4" "j < M" for v e j
  proof -
    have i: "4 * v + e < M" using that by (simp add: M_def)
    show ?thesis using i that(3)
      by (auto simp add: c_def m_def make_diag_bool_buffer_def M_def)
  qed
  have rows: "map (\<lambda>v. \<exists>e < 4. \<exists>j < M. c ! (4 * v + e) ! j) [0..<nbatch f]
        = map (\<lambda>v. \<exists>e < 4. \<exists>j < M. j \<noteq> 4 * v + e
                 \<and> segments_intersect (q1 ! (4 * v + e)) (q2 ! (4 * v + e)) (q1 ! j) (q2 ! j))
              [0..<nbatch f]"
  proof (rule map_cong[OF refl])
    fix v assume "v \<in> set [0..<nbatch f]"
    then have "v < nbatch f" by simp
    then show "(\<exists>e < 4. \<exists>j < M. c ! (4 * v + e) ! j)
               = (\<exists>e < 4. \<exists>j < M. j \<noteq> 4 * v + e
                  \<and> segments_intersect (q1 ! (4 * v + e)) (q2 ! (4 * v + e)) (q1 ! j) (q2 ! j))"
      using cij by blast
  qed
  have "collision_of_edges f p1 p2 = view_any (nbatch f) c"
    by (simp add: collision_of_edges_def q1 q2 em mask ec)
  then show ?thesis unfolding ev rows by (simp only: M_def)
qed

lemma get_edges_one_car:
  "get_edges one_car = (Inr ([[[2, 1], [2, - 1], [- 2, - 1], [- 2, 1]]],
                             [[[1], [- 1], [- 1], [1], [2], [2], [- 2], [- 2]]]), one_car)"
  by (simp add: get_edges_def get_coordinates_def cat_dim1_def one_car_fields)

lemma collision_of_edges_one_car:
  "collision_of_edges one_car [[[2, 1], [2, - 1], [- 2, - 1], [- 2, 1]]]
     [[[1], [- 1], [- 1], [1], [2], [2], [- 2], [- 2]]] = Inr [True]"
  apply (simp add: collision_of_edges_def check_intersection_lines_def segments_intersect_def
           orient_def make_diag_bool_buffer_def tensor_eval one_car_fields)
  apply (simp add: view_any_def Let_def chunks_def dvd_eq_mod_eq_0 mod_Suc)
  done

text \<open>
  When the corners are N x 4 x 2, the two arrays of \<open>get_edges\<close> both flatten to
  4 N rows of two entries.
\<close>

lemma get_edges_views:
  assumes c: "fst (get_coordinates f) = Inr c"
    and n: "length c = nbatch f"
    and blocks: "\<forall>v \<in> set c. length v = 4 \<and> (\<forall>p \<in> set v. length p = 2)"
  shows "\<exists>p1 p2 q1 q2. fst (get_edges f) = Inr (p1, p2)
           \<and> view_cols 2 (concat (concat p1)) = Inr q1
           \<and> view_cols 2 (concat (concat p2)) = Inr q2
           \<and> length q1 = 4 * nbatch f \<and> length q2 = 4 * nbatch f"
proof -
  let ?p2 = "cat_dim1 (map (map (drop 1)) c) (map (map (take 1)) c)"
  have ok: "list_all (list_all (\<lambda>p. length p = 2)) c"
    using blocks by (simp add: list_all_iff)
  have e: "fst (get_edges f) = Inr (c, ?p2)"
    using c ok by (cases "get_coordinates f") (simp add: get_edges_def)
  have rows1: "length (concat c) = 4 * nbatch f"
    using length_concat_uniform[of c 4] blocks n by simp
  have "\<forall>p \<in> set (concat c). length p = 2" using blocks by auto
  then have flat1: "length (concat (concat c)) = 2 * (4 * nbatch f)"
    using length_concat_uniform[of "concat c" 2] rows1 by simp
  have b2: "\<forall>v \<in> set ?p2. length v = 8 \<and> (\<forall>p \<in> set v. length p = 1)"
  proof
    fix v assume "v \<in> set ?p2"
    then obtain u where u: "u \<in> set c" "v = map (drop 1) u @ map (take 1) u"
      by (auto simp add: cat_dim1_def zip_map_map zip_same_conv_map)
    then show "length v = 8 \<and> (\<forall>p \<in> set v. length p = 1)"
      using blocks by auto
  qed
  have "length ?p2 = nbatch f" using n by (simp add: cat_dim1_def)
  then have rows2: "length (concat ?p2) = 8 * nbatch f"
    using length_concat_uniform[of ?p2 8] b2 by simp
  have "\<forall>p \<in> set (concat ?p2). length p = 1" using b2 by auto
  then have flat2: "length (concat (concat ?p2)) = 2 * (4 * nbatch f)"
    using length_concat_uniform[of "concat ?p2" 1] rows2 by simp
  have "view_cols 2 (concat (concat c))
        = Inr (chunks (4 * nbatch f) 2 (concat (concat c)))"
    unfolding view_cols_def flat1 by simp
  moreover have "view_cols 2 (concat (concat ?p2))
        = Inr (chunks (4 * nbatch f) 2 (concat (concat ?p2)))"
    unfolding view_cols_def flat2 by simp
  moreover have "length (chunks (4 * nbatch f) 2 xs) = 4 * nbatch f" for xs :: "real list"
    by (simp add: chunks_def)
  ultimately show ?thesis using e by blast
qed

text \<open>
  C3, as amended. Let \<open>q1\<close> and \<open>q2\<close> be the 4 N rows of two entries of the two
  arrays of \<open>get_edges\<close> after \<^verbatim>\<open>view(-1, 2)\<close>; row \<open>k\<close> is the segment from
  \<open>q1[k]\<close> to \<open>q2[k]\<close>, and rows 4 v to 4 v + 3 belong to vehicle \<open>v\<close>. For a fleet of
  N > 0 vehicles \<open>collision_check\<close> returns one boolean per vehicle, true iff one of
  the four segments of the vehicle intersects some other segment of the 4 N, any
  segment but itself, those of the same vehicle included: the mask built from N is
  False exactly on the diagonal of the 4 N x 4 N matrix.
\<close>

theorem collision_check_any_other_segment:
  assumes "0 < nbatch f"
    and "diag_bool_buffer f = make_diag_bool_buffer (nbatch f)"
    and "fst (get_edges f) = Inr (p1, p2)"
    and "view_cols 2 (concat (concat p1)) = Inr q1"
    and "view_cols 2 (concat (concat p2)) = Inr q2"
    and "length q1 = 4 * nbatch f" and "length q2 = 4 * nbatch f"
  shows "\<exists>bs. fst (collision_check f) = Inr bs \<and> length bs = nbatch f
           \<and> (\<forall>v < nbatch f. bs ! v \<longleftrightarrow>
                 (\<exists>e < 4. \<exists>j < 4 * nbatch f. j \<noteq> 4 * v + e
                    \<and> segments_intersect (q1 ! (4 * v + e)) (q2 ! (4 * v + e)) (q1 ! j) (q2 ! j)))
           \<and> (\<forall>i < 4 * nbatch f. \<forall>j < 4 * nbatch f. diag_bool_buffer f ! i ! j \<longleftrightarrow> i \<noteq> j)"
proof -
  obtain f' where g: "get_edges f = (Inr (p1, p2), f')"
    using assms(3) by (cases "get_edges f") simp
  have k: "nbatch f' = nbatch f" "diag_bool_buffer f' = make_diag_bool_buffer (nbatch f')"
    using get_edges_keeps[of f] assms(2) by (simp_all add: g)
  have "collision_of_edges f' p1 p2
         = Inr (map (\<lambda>v. \<exists>e < 4. \<exists>j < 4 * nbatch f'. j \<noteq> 4 * v + e
                      \<and> segments_intersect (q1 ! (4 * v + e)) (q2 ! (4 * v + e)) (q1 ! j) (q2 ! j))
                    [0..<nbatch f'])"
    by (rule collision_of_edges_rows) (use assms k in simp_all)
  then have "fst (collision_check f)
         = Inr (map (\<lambda>v. \<exists>e < 4. \<exists>j < 4 * nbatch f. j \<noteq> 4 * v + e
                      \<and> segments_intersect (q1 ! (4 * v + e)) (q2 ! (4 * v + e)) (q1 ! j) (q2 ! j))
                    [0..<nbatch f])"
    by (simp add: collision_check_def g k(1))
  moreover have "\<forall>i < 4 * nbatch f. \<forall>j < 4 * nbatch f. diag_bool_buffer f ! i ! j \<longleftrightarrow> i \<noteq> j"
    using assms(2) make_diag_bool_buffer_nth by simp
  ultimately show ?thesis by simp
qed

theorem collision_check_any_other_segment_witness:
  "0 < nbatch one_car
   \<and> diag_bool_buffer one_car = make_diag_bool_buffer (nbatch one_car)
   \<and> fst (get_edges one_car) = Inr ([[[2, 1], [2, - 1], [- 2, - 1], [- 2, 1]]],
                                      [[[1], [- 1], [- 1], [1], [2], [2], [- 2], [- 2]]])
   \<and> view_cols 2 (concat (concat [[[2, 1], [2, - 1], [- 2, - 1], [- 2, 1 :: real]]]))
       = Inr [[2, 1], [2, - 1], [- 2, - 1], [- 2, 1]]
   \<and> view_cols 2 (concat (concat [[[1], [- 1], [- 1], [1], [2], [2], [- 2], [- 2 :: real]]]))
       = Inr [[1, - 1], [- 1, 1], [2, 2], [- 2, - 2]]
   \<and> (\<exists>bs. fst (collision_check one_car) = Inr bs \<and> length bs = nbatch one_car)"
proof -
  have h: "0 < nbatch one_car"
    "diag_bool_buffer one_car = make_diag_bool_buffer (nbatch one_car)"
    "fst (get_edges one_car) = Inr ([[[2, 1], [2, - 1], [- 2, - 1], [- 2, 1]]],
                                      [[[1], [- 1], [- 1], [1], [2], [2], [- 2], [- 2]]])"
    "view_cols 2 (concat (concat [[[2, 1], [2, - 1], [- 2, - 1], [- 2, 1 :: real]]]))
       = Inr [[2, 1], [2, - 1], [- 2, - 1], [- 2, 1]]"
    "view_cols 2 (concat (concat [[[1], [- 1], [- 1], [1], [2], [2], [- 2], [- 2 :: real]]]))
       = Inr [[1, - 1], [- 1, 1], [2, 2], [- 2, - 2]]"
    "length [[2, 1], [2, - 1], [- 2, - 1], [- 2, 1 :: real]] = 4 * nbatch one_car"
    "length [[1, - 1], [- 1, 1], [2, 2], [- 2, - 2 :: real]] = 4 * nbatch one_car"
    by (simp_all add: one_car_fields get_edges_one_car tensor_eval)
  from collision_check_any_other_segment[OF h]
  have "\<exists>bs. fst (collision_check one_car) = Inr bs \<and> length bs = nbatch one_car" by blast
  then show ?thesis using h(1-5) by blast
qed


text \<open>
  The claim itself fails: the fleet of one car has no other vehicle, yet its car is
  reported as colliding, and the mask keeps the pair of its segments 0 and 1.
\<close>

theorem collision_check_lone_car:
  "fst (collision_check one_car) = Inr [True] \<and> nbatch one_car = 1
   \<and> diag_bool_buffer one_car ! 0 ! 1"
  by (simp add: collision_check_def get_edges_one_car collision_of_edges_one_car
        one_car_fields make_diag_bool_buffer_def upt_rec[of _ "numeral _"])

section \<open>The overlap matrix\<close>

text \<open>
  What \<open>safety_circle_overlap\<close> computes for fleets of N x 2 positions and N x 1
  radii: entry [i, j] is the overlap of the circle of vehicle j of the second fleet
  with the circle of vehicle \<open>(i * N_B + j) mod N_A\<close> of the first, which is vehicle
  i only in special cases (one of the fleets has a single vehicle, for example).
\<close>

lemma nth_repeat_rows:
  assumes "k < n * length t"
  shows "repeat_rows n t ! k = t ! (k mod length t)"
  using assms
proof (induction n arbitrary: k)
  case 0
  then show ?case by simp
next
  case (Suc n)
  show ?case
  proof (cases "k < length t")
    case True
    then show ?thesis by (simp add: repeat_rows_def nth_append)
  next
    case False
    then have "k - length t < n * length t" using Suc.prems by simp
    then have "repeat_rows n t ! (k - length t) = t ! ((k - length t) mod length t)"
      by (rule Suc.IH)
    moreover have "(k - length t) mod length t = k mod length t"
      using False by (simp add: le_mod_geq)
    ultimately show ?thesis using False by (simp add: repeat_rows_def nth_append)
  qed
qed

lemma length_repeat_rows: "length (repeat_rows n t) = n * length t"
  by (induction n) (simp_all add: repeat_rows_def)

lemma set_repeat_rows: "set (repeat_rows n t) \<subseteq> set t"
  by (auto simp add: repeat_rows_def)

lemma chunks_concat_uniform:
  assumes "\<forall>r \<in> set xs. length r = k"
  shows "chunks (length xs) k (concat xs) = xs"
proof (rule nth_equalityI)
  show "length (chunks (length xs) k (concat xs)) = length xs" by (simp add: chunks_def)
  fix i assume "i < length (chunks (length xs) k (concat xs))"
  then have i: "i < length xs" by (simp add: chunks_def)
  have "take (1 * k) (drop (i * k) (concat xs)) = concat (take 1 (drop i xs))"
    by (rule block_concat_uniform[OF assms])
  moreover have "take 1 (drop i xs) = [xs ! i]"
    using i by (simp add: take_Suc_conv_app_nth[of 0] Cons_nth_drop_Suc take_Suc hd_drop_conv_nth)
  ultimately show "chunks (length xs) k (concat xs) ! i = xs ! i"
    using i by (simp add: chunks_def)
qed

lemma view_cols_concat:
  assumes "\<forall>r \<in> set xs. length r = k" and "0 < k"
  shows "view_cols k (concat xs) = Inr xs"
proof -
  have "length (concat xs) = length xs * k" using assms(1) by (rule length_concat_uniform)
  then show ?thesis using assms(2) chunks_concat_uniform[OF assms(1)]
    by (simp add: view_cols_def)
qed

lemma circle_area_overlap1_ok:
  assumes "length p = 2" and "length q = 2" and "length r = 1" and "length s = 1"
  shows "circle_area_overlap1 p q r s
         = Inr (lens_area (sqrt ((p ! 0 - q ! 0)\<^sup>2 + (p ! 1 - q ! 1)\<^sup>2)) (r ! 0) (s ! 0))"
proof -
  obtain x1 y1 where p: "p = [x1, y1]" using len2_shape[OF assms(1)] by blast
  obtain x2 y2 where q: "q = [x2, y2]" using len2_shape[OF assms(2)] by blast
  obtain r1 where r: "r = [r1]" using len1_shape[OF assms(3)] by blast
  obtain r2 where s: "s = [r2]" using len1_shape[OF assms(4)] by blast
  show ?thesis by (simp add: p q r s)
qed

lemma zip4_nth_map:
  assumes "length ys = length xs" and "length zs = length xs" and "length ws = length xs"
  shows "map (\<lambda>(x, y, z, w). g x y z w) (zip xs (zip ys (zip zs ws)))
         = map (\<lambda>i. g (xs ! i) (ys ! i) (zs ! i) (ws ! i)) [0..<length xs]"
  using assms by (auto intro!: nth_equalityI)

lemma chunks_nth:
  assumes "length xs = n * m" and "i < n"
  shows "chunks n m xs ! i = map (\<lambda>j. xs ! (i * m + j)) [0..<m]"
proof (rule nth_equalityI)
  have le: "i * m + m \<le> length xs"
  proof -
    have "(i + 1) * m \<le> n * m" using assms(2) by (intro mult_le_mono1) simp
    then show ?thesis using assms(1) by simp
  qed
  show "length (chunks n m xs ! i) = length (map (\<lambda>j. xs ! (i * m + j)) [0..<m])"
    using assms(2) le by (simp add: chunks_def)
  fix j assume "j < length (chunks n m xs ! i)"
  then have "j < m" using assms(2) le by (simp add: chunks_def)
  then show "chunks n m xs ! i ! j = map (\<lambda>j. xs ! (i * m + j)) [0..<m] ! j"
    using assms(2) le by (simp add: chunks_def)
qed

lemma safety_circle_overlap_entries:
  assumes "length (position a) = nbatch a" and "length (safety_circle a) = nbatch a"
    and "\<forall>p \<in> set (position a). length p = 2" and "\<forall>r \<in> set (safety_circle a). length r = 1"
    and "length (position b) = nbatch b" and "length (safety_circle b) = nbatch b"
    and "\<forall>p \<in> set (position b). length p = 2" and "\<forall>r \<in> set (safety_circle b). length r = 1"
    and "0 < nbatch a" and "0 < nbatch b"
  shows "safety_circle_overlap a b
         = Inr (map (\<lambda>i. map (\<lambda>j.
                  lens_area
                    (sqrt ((position a ! ((i * nbatch b + j) mod nbatch a) ! 0
                              - position b ! j ! 0)\<^sup>2
                         + (position a ! ((i * nbatch b + j) mod nbatch a) ! 1
                              - position b ! j ! 1)\<^sup>2))
                    (safety_circle a ! ((i * nbatch b + j) mod nbatch a) ! 0)
                    (safety_circle b ! j ! 0))
                [0..<nbatch b]) [0..<nbatch a])"
proof -
  define M where "M = nbatch a * nbatch b"
  define c1 where "c1 = repeat_rows (nbatch b) (position a)"
  define c2 where "c2 = repeat_rows (nbatch a) (position b)"
  define r1 where "r1 = repeat_rows (nbatch b) (safety_circle a)"
  define r2 where "r2 = repeat_rows (nbatch a) (safety_circle b)"
  define area_at where "area_at k =
     lens_area (sqrt ((position a ! (k mod nbatch a) ! 0 - position b ! (k mod nbatch b) ! 0)\<^sup>2
                    + (position a ! (k mod nbatch a) ! 1 - position b ! (k mod nbatch b) ! 1)\<^sup>2))
       (safety_circle a ! (k mod nbatch a) ! 0) (safety_circle b ! (k mod nbatch b) ! 0)" for k
  have len: "length c1 = M" "length c2 = M" "length r1 = M" "length r2 = M"
    using assms(1,2,5,6)
    by (simp_all add: c1_def c2_def r1_def r2_def M_def length_repeat_rows mult.commute)
  have s2: "\<forall>r \<in> set c2. length r = 2"
    using assms(7) set_repeat_rows[of "nbatch a" "position b"] unfolding c2_def by blast
  have v2: "view_cols 2 (concat c2) = Inr c2"
    by (rule view_cols_concat[OF s2]) simp
  have s1: "\<forall>r \<in> set r2. length r = 1"
    using assms(8) set_repeat_rows[of "nbatch a" "safety_circle b"] unfolding r2_def by blast
  have v1: "view_cols 1 (concat r2) = Inr r2"
    by (rule view_cols_concat[OF s1]) simp
  have nth: "c1 ! k = position a ! (k mod nbatch a)" "c2 ! k = position b ! (k mod nbatch b)"
    "r1 ! k = safety_circle a ! (k mod nbatch a)" "r2 ! k = safety_circle b ! (k mod nbatch b)"
    if "k < M" for k
    using that assms(1,2,5,6)
    by (simp_all add: c1_def c2_def r1_def r2_def M_def nth_repeat_rows mult.commute)
  have one: "circle_area_overlap1 (c1 ! k) (c2 ! k) (r1 ! k) (r2 ! k) = Inr (area_at k)"
    if k: "k < M" for k
  proof -
    have ka: "k mod nbatch a < nbatch a" and kb: "k mod nbatch b < nbatch b"
      using assms(9,10) by simp_all
    have "length (position a ! (k mod nbatch a)) = 2" "length (position b ! (k mod nbatch b)) = 2"
      "length (safety_circle a ! (k mod nbatch a)) = 1"
      "length (safety_circle b ! (k mod nbatch b)) = 1"
      using ka kb assms(1-8) by simp_all
    then show ?thesis unfolding nth[OF k] area_at_def by (rule circle_area_overlap1_ok)
  qed
  have "collect (map (\<lambda>k. circle_area_overlap1 (c1 ! k) (c2 ! k) (r1 ! k) (r2 ! k)) [0..<M])
        = Inr (map area_at [0..<M])"
    by (rule collect_map_Inr) (use one in simp)
  then have ov: "circle_area_overlap c1 c2 r1 r2 = Inr (map area_at [0..<M])"
    using len by (simp add: circle_area_overlap_def zip4_nth_map)
  have vw: "view_rows_cols (nbatch a) (nbatch b) (map area_at [0..<M])
            = Inr (chunks (nbatch a) (nbatch b) (map area_at [0..<M]))"
    by (simp add: view_rows_cols_def M_def)
  have rows: "chunks (nbatch a) (nbatch b) (map area_at [0..<M])
              = map (\<lambda>i. map (\<lambda>j. area_at (i * nbatch b + j)) [0..<nbatch b]) [0..<nbatch a]"
  proof (rule nth_equalityI)
    show "length (chunks (nbatch a) (nbatch b) (map area_at [0..<M]))
          = length (map (\<lambda>i. map (\<lambda>j. area_at (i * nbatch b + j)) [0..<nbatch b]) [0..<nbatch a])"
      by (simp add: chunks_def)
    fix i assume "i < length (chunks (nbatch a) (nbatch b) (map area_at [0..<M]))"
    then have i: "i < nbatch a" by (simp add: chunks_def)
    have lt: "i * nbatch b + j < M" if "j < nbatch b" for j
    proof -
      have "i * nbatch b + j < (i + 1) * nbatch b" using that by simp
      also have "\<dots> \<le> nbatch a * nbatch b" using i by (intro mult_le_mono1) simp
      finally show ?thesis by (simp add: M_def)
    qed
    have "chunks (nbatch a) (nbatch b) (map area_at [0..<M]) ! i
          = map (\<lambda>j. map area_at [0..<M] ! (i * nbatch b + j)) [0..<nbatch b]"
      by (rule chunks_nth) (use i in \<open>simp_all add: M_def\<close>)
    also have "\<dots> = map (\<lambda>j. area_at (i * nbatch b + j)) [0..<nbatch b]"
      using lt by (intro map_cong[OF refl]) simp
    finally show "chunks (nbatch a) (nbatch b) (map area_at [0..<M]) ! i
          = map (\<lambda>i. map (\<lambda>j. area_at (i * nbatch b + j)) [0..<nbatch b]) [0..<nbatch a] ! i"
      using i by simp
  qed
  have "safety_circle_overlap a b
        = Inr (map (\<lambda>i. map (\<lambda>j. area_at (i * nbatch b + j)) [0..<nbatch b]) [0..<nbatch a])"
    using v1 v2 ov vw rows
    by (simp add: safety_circle_overlap_def c1_def[symmetric] c2_def[symmetric]
          r1_def[symmetric] r2_def[symmetric])
  moreover have "area_at (i * nbatch b + j)
      = lens_area
          (sqrt ((position a ! ((i * nbatch b + j) mod nbatch a) ! 0 - position b ! j ! 0)\<^sup>2
               + (position a ! ((i * nbatch b + j) mod nbatch a) ! 1 - position b ! j ! 1)\<^sup>2))
          (safety_circle a ! ((i * nbatch b + j) mod nbatch a) ! 0)
          (safety_circle b ! j ! 0)" if "j < nbatch b" for i j
    using that by (simp add: area_at_def)
  ultimately show ?thesis by (simp cong: map_cong)
qed

end
